theory Spec2Isabelle
  imports Complex_Main "HOL-Library.Multiset"
begin

section \<open>Data model (models/video-info.model.ts)\<close>

text \<open>
  The two interfaces of the model file, field for field. An optional field
  (\<open>resolution?: string\<close>) is an \<open>option\<close>; \<open>None\<close> is JavaScript's \<open>undefined\<close>.
  The numbers of an answer are taken to be finite. The code only subtracts two of them
  and tests the sign, which is exact for finite doubles, so they are modelled as
  rationals.
\<close>

record VideoVariant =
  url :: string
  format :: string
  resolution :: "string option"
  sizeMb :: "rat option"
  isProtected :: "bool option"

record VideoGroup =
  title :: string
  thumbnailUrl :: "string option"
  category :: "string option"
  uploadDate :: "string option"
  popularity :: "rat option"
  variants :: "VideoVariant list"

section \<open>The platform and the external collaborators\<close>

text \<open>
  What the code calls but does not define is a parameter of the model:
  \<^item> \<open>newURL input base\<close> is \<open>new URL(input, base)\<close> of the WHATWG URL standard
    (\<open>base = None\<close> for the one-argument call); \<open>None\<close> is the \<open>TypeError\<close> it throws;
  \<^item> \<open>generateContent u\<close> is the text of the model's answer to the prompt built for
    the page \<open>u\<close> (the prompt and the schema are fixed but for \<open>u\<close>); \<open>None\<close> is a
    rejected call;
  \<^item> \<open>JSON_parse\<close> is \<open>JSON.parse\<close> of the trimmed text read as \<open>VideoGroup[]\<close>;
    \<open>None\<close> is a \<open>SyntaxError\<close>, or a value that is no array of groups (the \<open>map\<close>
    that follows throws on it, into the same \<open>catch\<close>);
  \<^item> \<open>parseDate s\<close> is \<open>new Date(s).getTime()\<close>, \<open>None\<close> for \<open>NaN\<close>;
  \<^item> \<open>localeCompare a b\<close> is \<open>a.localeCompare(b)\<close>;
  \<^item> \<open>storageFails\<close> says that \<open>localStorage\<close> throws when it is accessed;
  \<^item> \<open>engineSort cmp xs\<close> is the order in which the JavaScript engine leaves \<open>xs\<close>
    after \<open>xs.sort(cmp)\<close> when \<open>cmp\<close> is not a consistent comparator for \<open>xs\<close>
    (\<open>cmp a b = None\<close> is a result of \<open>NaN\<close>): ECMAScript leaves that order to the
    implementation.
\<close>

record URL =
  href :: string
  protocol :: string

record platform =
  newURL :: "string \<Rightarrow> string option \<Rightarrow> URL option"
  generateContent :: "string \<Rightarrow> string option"
  JSON_parse :: "string \<Rightarrow> VideoGroup list option"
  parseDate :: "string \<Rightarrow> int option"
  localeCompare :: "string \<Rightarrow> string \<Rightarrow> int"
  storageFails :: bool
  engineSort :: "(VideoGroup \<Rightarrow> VideoGroup \<Rightarrow> rat option) \<Rightarrow> VideoGroup list \<Rightarrow> VideoGroup list"

datatype js_error = Error (message: string)

section \<open>GeminiService.findVideosInUrl (services/gemini.service.ts)\<close>

text \<open>
  The module-level \<open>cache\<close> is the state of the service. \<open>apiCalls\<close> is a ghost
  counter, bumped where the code calls \<open>generateContent\<close>: it is how the theorems
  below count invocations of the external model.
\<close>

record service_state =
  cache :: "string \<rightharpoonup> VideoGroup list"
  apiCalls :: nat

definition analysisError :: js_error where
  "analysisError = Error ''Failed to analyze the URL. The AI model could not process the request.''"

text \<open>Lines 88-95: the callback mapped over \<open>group.variants\<close>, with its own \<open>try/catch\<close>.\<close>

definition resolveVariant :: "platform \<Rightarrow> string \<Rightarrow> VideoVariant \<Rightarrow> VideoVariant" where
  "resolveVariant env pageUrl variant =
     (case newURL env (url variant) (Some pageUrl) of
        Some absoluteUrl \<Rightarrow> variant\<lparr>url := href absoluteUrl\<rparr>
      | None \<Rightarrow> variant)"

text \<open>
  Lines 86-97: the callback mapped over the groups. The thumbnail is resolved outside
  any \<open>try\<close> of the callback, so its \<open>TypeError\<close> leaves the callback: that is the
  result \<open>None\<close>. A missing or empty \<open>thumbnailUrl\<close> is falsy and becomes \<open>undefined\<close>.
\<close>

definition processGroup :: "platform \<Rightarrow> string \<Rightarrow> VideoGroup \<Rightarrow> VideoGroup option" where
  "processGroup env pageUrl g =
     (let vs = map (resolveVariant env pageUrl) (variants g) in
      case thumbnailUrl g of
        None \<Rightarrow> Some (g\<lparr>variants := vs, thumbnailUrl := None\<rparr>)
      | Some t \<Rightarrow>
          if t = [] then Some (g\<lparr>variants := vs, thumbnailUrl := None\<rparr>)
          else (case newURL env t (Some pageUrl) of
                  None \<Rightarrow> None
                | Some absoluteUrl \<Rightarrow>
                    Some (g\<lparr>variants := vs, thumbnailUrl := Some (href absoluteUrl)\<rparr>)))"

text \<open>\<open>videoGroups.map(...)\<close>: left to right, the first throw ends it.\<close>

fun processGroups :: "platform \<Rightarrow> string \<Rightarrow> VideoGroup list \<Rightarrow> VideoGroup list option" where
  "processGroups env pageUrl [] = Some []"
| "processGroups env pageUrl (g # gs) =
     (case processGroup env pageUrl g of
        None \<Rightarrow> None
      | Some g' \<Rightarrow>
          (case processGroups env pageUrl gs of
             None \<Rightarrow> None
           | Some gs' \<Rightarrow> Some (g' # gs')))"

text \<open>
  Lines 21-106. A cached page returns at once. Otherwise the model is called, and every
  failure inside the \<open>try\<close> (rejected call, unparsable text, a throw while the groups are
  processed) reaches the one \<open>catch\<close>, which throws the fixed error; \<open>cache.set\<close> is the
  last statement of the \<open>try\<close>.
\<close>

definition findVideosInUrl ::
  "platform \<Rightarrow> string \<Rightarrow> service_state \<Rightarrow> (js_error + VideoGroup list) \<times> service_state" where
  "findVideosInUrl env pageUrl s =
     (case cache s pageUrl of
        Some cached \<Rightarrow> (Inr cached, s)
      | None \<Rightarrow>
          (let s1 = s\<lparr>apiCalls := apiCalls s + 1\<rparr> in
           case generateContent env pageUrl of
             None \<Rightarrow> (Inl analysisError, s1)
           | Some jsonString \<Rightarrow>
               (case JSON_parse env jsonString of
                  None \<Rightarrow> (Inl analysisError, s1)
                | Some groups \<Rightarrow>
                    (case processGroups env pageUrl groups of
                       None \<Rightarrow> (Inl analysisError, s1)
                     | Some processedGroups \<Rightarrow>
                         (Inr processedGroups,
                          s1\<lparr>cache := (cache s1)(pageUrl \<mapsto> processedGroups)\<rparr>)))))"

definition emptyService :: service_state where
  "emptyService = \<lparr>cache = Map.empty, apiCalls = 0\<rparr>"

text \<open>
  Every entry of the cache was computed by the code above from the collaborator's
  answer for its key: true of the empty cache and kept by every call.
\<close>

definition cache_sound :: "platform \<Rightarrow> service_state \<Rightarrow> bool" where
  "cache_sound env s =
     (\<forall>u gs. cache s u = Some gs \<longrightarrow>
        (\<exists>jsonString raw. generateContent env u = Some jsonString \<and>
           JSON_parse env jsonString = Some raw \<and> processGroups env u raw = Some gs))"

section \<open>AppComponent (app.component.ts)\<close>

datatype SortByType = Popularity | Date | Title

text \<open>
  The signals of the component, one field each (\<open>url_input\<close> is the signal \<open>url\<close>).
  \<open>storage\<close> is what \<open>localStorage\<close> holds under \<open>storageKey\<close>: the history list that
  was last written, \<open>None\<close> when the key is absent.
\<close>

record AppComponent =
  url_input :: string
  videoGroups :: "VideoGroup list"
  isLoading :: bool
  error :: "string option"
  hasSearched :: bool
  isModalOpen :: bool
  selectedVideoGroup :: "VideoGroup option"
  copiedUrl :: string
  urlHistory :: "string list"
  selectedCategory :: string
  sortBy :: SortByType
  storage :: "string list option"

text \<open>
  \<open>Array.from(new Set(xs))\<close>: a \<open>Set\<close> keeps insertion order and ignores a value it
  already holds.
\<close>

definition Array_from_Set :: "'a list \<Rightarrow> 'a list" where
  "Array_from_Set xs = fold (\<lambda>x acc. if x \<in> set acc then acc else acc @ [x]) xs []"

text \<open>Lines 36-39. \<open>!!c\<close> drops \<open>undefined\<close> and the empty string.\<close>

definition allCategories :: "AppComponent \<Rightarrow> string list" where
  "allCategories st =
     (let categories = map the (filter (\<lambda>c. c \<noteq> None \<and> c \<noteq> Some [])
                                       (map category (videoGroups st)))
      in ''all'' # Array_from_Set categories)"

text \<open>
  \<open>Array.prototype.sort\<close> with a comparator, as ECMAScript (2019 and later) defines
  it. A comparator returns a number or \<open>NaN\<close> (\<open>None\<close>). It is a consistent comparator
  for the values sorted when it never returns \<open>NaN\<close> on them and its signs make them
  a total preorder: the conditions of the standard, in its order.
\<close>

definition consistent_comparator :: "('a \<Rightarrow> 'a \<Rightarrow> rat option) \<Rightarrow> 'a list \<Rightarrow> bool" where
  "consistent_comparator cmp xs =
     (\<forall>a \<in> set xs. \<forall>b \<in> set xs. \<forall>c \<in> set xs.
        cmp a b \<noteq> None
        \<and> cmp a a = Some 0
        \<and> (cmp a b = Some 0 \<longrightarrow> cmp b a = Some 0)
        \<and> (cmp a b = Some 0 \<and> cmp b c = Some 0 \<longrightarrow> cmp a c = Some 0)
        \<and> ((\<exists>v w. cmp a b = Some v \<and> v < 0 \<and> cmp b c = Some w \<and> w < 0) \<longrightarrow>
             (\<exists>r. cmp a c = Some r \<and> r < 0))
        \<and> ((\<exists>v w. cmp a b = Some v \<and> 0 < v \<and> cmp b c = Some w \<and> 0 < w) \<longrightarrow>
             (\<exists>r. cmp a c = Some r \<and> 0 < r)))"

text \<open>
  For a consistent comparator the result is fixed by the standard: the elements in
  ascending order of the comparator, equal ones in their order in the input (the sort
  is stable). Insertion from the right computes it: an element goes before the first
  element it does not compare greater than.
\<close>

fun insert_sorted :: "('a \<Rightarrow> 'a \<Rightarrow> rat option) \<Rightarrow> 'a \<Rightarrow> 'a list \<Rightarrow> 'a list" where
  "insert_sorted cmp x [] = [x]"
| "insert_sorted cmp x (y # ys) =
     (if (case cmp x y of None \<Rightarrow> False | Some v \<Rightarrow> v \<le> 0) then x # y # ys
      else y # insert_sorted cmp x ys)"

text \<open>
  For any other comparator the standard only says that the result holds the same
  elements, in an order the engine chooses: that order is the platform's \<open>engineSort\<close>.
  (An \<open>engineSort\<close> that does not return the same elements is no engine; the input is
  left as it is then.)
\<close>

definition Array_sort ::
  "platform \<Rightarrow> (VideoGroup \<Rightarrow> VideoGroup \<Rightarrow> rat option) \<Rightarrow> VideoGroup list \<Rightarrow> VideoGroup list" where
  "Array_sort env cmp xs =
     (if consistent_comparator cmp xs then foldr (insert_sorted cmp) xs []
      else if mset (engineSort env cmp xs) = mset xs then engineSort env cmp xs
      else xs)"

text \<open>\<open>new Date(g.uploadDate || 0).getTime()\<close>; \<open>None\<close> is \<open>NaN\<close>.\<close>

definition getTime :: "platform \<Rightarrow> VideoGroup \<Rightarrow> int option" where
  "getTime env g =
     (case uploadDate g of
        None \<Rightarrow> Some 0
      | Some d \<Rightarrow> if d = [] then Some 0 else parseDate env d)"

text \<open>\<open>g.popularity || 0\<close>.\<close>

definition popularityOr0 :: "VideoGroup \<Rightarrow> rat" where
  "popularityOr0 g = (case popularity g of None \<Rightarrow> 0 | Some p \<Rightarrow> p)"

text \<open>
  Lines 54-65: the comparator. A difference of two times is \<open>NaN\<close> when one of them
  is.
\<close>

definition compareGroups ::
  "platform \<Rightarrow> SortByType \<Rightarrow> VideoGroup \<Rightarrow> VideoGroup \<Rightarrow> rat option" where
  "compareGroups env criteria a b =
     (case criteria of
        Date \<Rightarrow>
          (case (getTime env b, getTime env a) of
             (Some tb, Some ta) \<Rightarrow> Some (of_int (tb - ta))
           | _ \<Rightarrow> None)
      | Popularity \<Rightarrow> Some (popularityOr0 b - popularityOr0 a)
      | Title \<Rightarrow> Some (of_int (localeCompare env (title a) (title b))))"

text \<open>Lines 41-66.\<close>

definition filteredVideoGroups :: "platform \<Rightarrow> AppComponent \<Rightarrow> VideoGroup list" where
  "filteredVideoGroups env st =
     (let groups = videoGroups st;
          cat = selectedCategory st;
          result = (if cat \<noteq> ''all'' then filter (\<lambda>v. category v = Some cat) groups
                    else groups)
      in Array_sort env (compareGroups env (sortBy st)) result)"

text \<open>Lines 108-115.\<close>

definition isValidUrl :: "platform \<Rightarrow> string \<Rightarrow> bool" where
  "isValidUrl env urlString =
     (case newURL env urlString None of
        None \<Rightarrow> False
      | Some newUrl \<Rightarrow> protocol newUrl = ''http:'' \<or> protocol newUrl = ''https:'')"

text \<open>Lines 164-175. A failed write is logged and changes nothing.\<close>

definition updateHistory :: "platform \<Rightarrow> string \<Rightarrow> AppComponent \<Rightarrow> AppComponent" where
  "updateHistory env u st =
     (let newHistory = u # filter (\<lambda>h. h \<noteq> u) (urlHistory st);
          limitedHistory = take 10 newHistory
      in st\<lparr>urlHistory := limitedHistory,
            storage := (if storageFails env then storage st else Some limitedHistory)\<rparr>)"

text \<open>Lines 177-184.\<close>

definition clearHistory :: "platform \<Rightarrow> AppComponent \<Rightarrow> AppComponent" where
  "clearHistory env st =
     st\<lparr>urlHistory := [], storage := (if storageFails env then storage st else None)\<rparr>"

definition validationMessage :: string where
  "validationMessage = ''Please enter a valid URL (e.g., https://example.com)''"

text \<open>
  \<open>findVideos\<close>, lines 72-94, in the parts the \<open>await\<close> cuts it into. The statements
  before the \<open>try\<close> (lines 79-83):
\<close>

definition findVideos_begin :: "AppComponent \<Rightarrow> AppComponent" where
  "findVideos_begin st =
     st\<lparr>isLoading := True, error := None, videoGroups := [], hasSearched := True,
        selectedCategory := ''all''\<rparr>"

text \<open>
  Lines 86-93, once the call has settled: \<open>Inr\<close> is the resolved value, \<open>Inl\<close> the
  error caught (rejected or thrown, the \<open>try\<close> makes no difference). \<open>finally\<close> runs last.
\<close>

definition findVideos_settle ::
  "platform \<Rightarrow> string \<Rightarrow> js_error + VideoGroup list \<Rightarrow> AppComponent \<Rightarrow> AppComponent" where
  "findVideos_settle env urlToSearch outcome st =
     (case outcome of
        Inr foundGroups \<Rightarrow>
          (updateHistory env urlToSearch (st\<lparr>videoGroups := foundGroups\<rparr>))\<lparr>isLoading := False\<rparr>
      | Inl e \<Rightarrow>
          st\<lparr>error := Some (if message e = [] then ''An unknown error occurred.'' else message e),
             isLoading := False\<rparr>)"

text \<open>
  What can happen to the component while a call is pending: every handler of the
  component (lines 96-151, 177-184). \<open>Copied\<close> and \<open>CopyExpired\<close> are the two callbacks
  of \<open>copyToClipboard\<close>. No handler looks at \<open>isLoading\<close>, so another search can be
  submitted meanwhile: \<open>FindVideos\<close> is \<open>findVideos\<close> called again, up to its \<open>await\<close>
  (lines 72-83), \<open>LoadFromHistory\<close> the same after setting the URL (lines 96-99), and
  \<open>Settled u outcome\<close> is another call of \<open>findVideos\<close>, for the page \<open>u\<close>, resuming
  after its \<open>await\<close> with the outcome of its service call (lines 86-93).
\<close>

datatype ui_event =
    OnUrlChange string
  | SetCategoryFilter string
  | SetSortBy SortByType
  | OpenDownloadModal VideoGroup
  | CloseModal
  | Copied string
  | CopyExpired string
  | ClearHistory
  | FindVideos
  | LoadFromHistory string
  | Settled string "js_error + VideoGroup list"

fun settles :: "ui_event \<Rightarrow> bool" where
  "settles (Settled u outcome) = True"
| "settles e = False"

definition findVideos_submit :: "platform \<Rightarrow> AppComponent \<Rightarrow> AppComponent" where
  "findVideos_submit env st =
     (if \<not> isValidUrl env (url_input st) then st\<lparr>error := Some validationMessage\<rparr>
      else findVideos_begin st)"

fun handle :: "platform \<Rightarrow> ui_event \<Rightarrow> AppComponent \<Rightarrow> AppComponent" where
  "handle env (OnUrlChange newUrl) st =
     (let st1 = st\<lparr>url_input := newUrl\<rparr> in
      case error st1 of
        None \<Rightarrow> st1
      | Some m \<Rightarrow> if m = [] then st1 else st1\<lparr>error := None\<rparr>)"
| "handle env (SetCategoryFilter c) st = st\<lparr>selectedCategory := c\<rparr>"
| "handle env (SetSortBy criteria) st = st\<lparr>sortBy := criteria\<rparr>"
| "handle env (OpenDownloadModal g) st = st\<lparr>selectedVideoGroup := Some g, isModalOpen := True\<rparr>"
| "handle env CloseModal st =
     st\<lparr>isModalOpen := False, selectedVideoGroup := None, copiedUrl := []\<rparr>"
| "handle env (Copied u) st = st\<lparr>copiedUrl := u\<rparr>"
| "handle env (CopyExpired u) st = (if copiedUrl st = u then st\<lparr>copiedUrl := []\<rparr> else st)"
| "handle env ClearHistory st = clearHistory env st"
| "handle env FindVideos st = findVideos_submit env st"
| "handle env (LoadFromHistory u) st = findVideos_submit env (st\<lparr>url_input := u\<rparr>)"
| "handle env (Settled u outcome) st = findVideos_settle env u outcome st"

text \<open>The states the component passes through while the call is pending, oldest first.\<close>

fun inFlight :: "platform \<Rightarrow> ui_event list \<Rightarrow> AppComponent \<Rightarrow> AppComponent list" where
  "inFlight env [] st = [st]"
| "inFlight env (e # es) st = st # inFlight env es (handle env e st)"

text \<open>
  The whole of one call of \<open>findVideos\<close>, for an injected service \<open>call\<close> with state of
  type \<open>'s\<close> and the events \<open>evs\<close> that reach the component while the call is pending.
  The result is the in-flight states (none when validation fails), the state of the
  component when this call has settled, and the state in which this call leaves the
  service.
\<close>

definition findVideos ::
  "platform \<Rightarrow> (string \<Rightarrow> 's \<Rightarrow> (js_error + VideoGroup list) \<times> 's) \<Rightarrow> ui_event list \<Rightarrow>
     AppComponent \<times> 's \<Rightarrow> AppComponent list \<times> AppComponent \<times> 's" where
  "findVideos env call evs x =
     (let st = fst x; svc = snd x; urlToSearch = url_input st in
      if \<not> isValidUrl env urlToSearch then ([], st\<lparr>error := Some validationMessage\<rparr>, svc)
      else
        (let pending = inFlight env evs (findVideos_begin st);
             r = call urlToSearch svc
         in (pending, findVideos_settle env urlToSearch (fst r) (last pending), snd r)))"

section \<open>Reference definitions and example data\<close>

text \<open>
  The category list as the specification words it: the value at position \<open>i\<close> is kept
  exactly when it does not occur before \<open>i\<close>, so each distinct value appears once, at
  its first occurrence.
\<close>

definition firstSeen :: "'a list \<Rightarrow> 'a list" where
  "firstSeen xs = map (nth xs) (filter (\<lambda>i. xs ! i \<notin> set (take i xs)) [0..<length xs])"

text \<open>
  An excerpt of the WHATWG URL constructor, for the examples: its values at the
  inputs the examples use. Without a base, the empty string and \<open>not a url\<close> have no
  scheme and throw; against the base \<open>https://site.test/page\<close>, \<open>http://[\<close> opens an
  IPv6 literal that is never closed and throws. The examples evaluate it at no other
  input.
\<close>

definition exampleURL :: "string \<Rightarrow> string option \<Rightarrow> URL option" where
  "exampleURL input base =
     (if base = None then
        (if input = ''https://x.test'' then Some \<lparr>href = ''https://x.test/'', protocol = ''https:''\<rparr>
         else if input = ''http://x.test'' then Some \<lparr>href = ''http://x.test/'', protocol = ''http:''\<rparr>
         else if input = ''ftp://x.test'' then Some \<lparr>href = ''ftp://x.test/'', protocol = ''ftp:''\<rparr>
         else if input = ''https://site.test/page''
           then Some \<lparr>href = ''https://site.test/page'', protocol = ''https:''\<rparr>
         else None)
      else if base = Some ''https://site.test/page'' then
        (if input = ''/thumb.jpg''
           then Some \<lparr>href = ''https://site.test/thumb.jpg'', protocol = ''https:''\<rparr>
         else if input = ''/v/clip.mp4''
           then Some \<lparr>href = ''https://site.test/v/clip.mp4'', protocol = ''https:''\<rparr>
         else None)
      else None)"

text \<open>
  A platform whose model answers every prompt with a text that decodes to \<open>answer\<close>;
  \<open>answer = None\<close> is a model whose call is rejected. The examples sort by
  popularity only, a consistent comparator, so its \<open>engineSort\<close> is never evaluated.
\<close>

definition examplePlatform :: "VideoGroup list option \<Rightarrow> platform" where
  "examplePlatform answer =
     \<lparr>newURL = exampleURL,
      generateContent = (\<lambda>u. case answer of None \<Rightarrow> None | Some gs \<Rightarrow> Some ''[...]''),
      JSON_parse = (\<lambda>t. answer),
      parseDate = (\<lambda>d. None),
      localeCompare = (\<lambda>a b. 0),
      storageFails = False,
      engineSort = (\<lambda>cmp xs. xs)\<rparr>"

text \<open>A platform whose model answers with text that is not JSON.\<close>

definition garbledPlatform :: platform where
  "garbledPlatform =
     \<lparr>newURL = exampleURL,
      generateContent = (\<lambda>u. Some ''I found no videos.''),
      JSON_parse = (\<lambda>t. None),
      parseDate = (\<lambda>d. None),
      localeCompare = (\<lambda>a b. 0),
      storageFails = False,
      engineSort = (\<lambda>cmp xs. xs)\<rparr>"

text \<open>
  A platform whose model rejects the call for the page \<open>https://x.test\<close> and answers
  every other prompt with a text that decodes to \<open>answer\<close>.
\<close>

definition flakyPlatform :: "VideoGroup list \<Rightarrow> platform" where
  "flakyPlatform answer =
     \<lparr>newURL = exampleURL,
      generateContent = (\<lambda>u. if u = ''https://x.test'' then None else Some ''[...]''),
      JSON_parse = (\<lambda>t. Some answer),
      parseDate = (\<lambda>d. None),
      localeCompare = (\<lambda>a b. 0),
      storageFails = False,
      engineSort = (\<lambda>cmp xs. xs)\<rparr>"

definition exampleVariant :: "string \<Rightarrow> VideoVariant" where
  "exampleVariant u =
     \<lparr>url = u, format = ''mp4'', resolution = Some ''1080p'', sizeMb = None, isProtected = None\<rparr>"

definition exampleGroup :: "string option \<Rightarrow> string option \<Rightarrow> rat option \<Rightarrow> VideoGroup" where
  "exampleGroup thumb cat pop =
     \<lparr>title = ''Clip'', thumbnailUrl = thumb, category = cat, uploadDate = None,
      popularity = pop, variants = [exampleVariant ''/v/clip.mp4'']\<rparr>"

definition exampleApp :: AppComponent where
  "exampleApp =
     \<lparr>url_input = [], videoGroups = [], isLoading = False, error = None, hasSearched = False,
      isModalOpen = False, selectedVideoGroup = None, copiedUrl = [], urlHistory = [],
      selectedCategory = ''all'', sortBy = Popularity, storage = None\<rparr>"

section \<open>Properties of the result pipeline\<close>

lemmas ex_defs = examplePlatform_def garbledPlatform_def exampleGroup_def exampleVariant_def
  emptyService_def exampleURL_def exampleApp_def

lemma mset_insert_sorted: "mset (insert_sorted cmp x ys) = add_mset x (mset ys)"
  by (induction ys) auto

lemma mset_foldr_insert_sorted: "mset (foldr (insert_sorted cmp) xs []) = mset xs"
  by (induction xs) (auto simp: mset_insert_sorted)

lemma mset_Array_sort: "mset (Array_sort env cmp xs) = mset xs"
  by (simp add: Array_sort_def mset_foldr_insert_sorted)

lemma consistent_popularity: "consistent_comparator (compareGroups env Popularity) xs"
  by (auto simp: consistent_comparator_def compareGroups_def)

lemma insert_sorted_popularity:
  "insert_sorted (compareGroups env Popularity) x ys = insort_key (\<lambda>g. - popularityOr0 g) x ys"
  by (induction ys) (auto simp: compareGroups_def)

lemma foldr_insert_sorted_popularity:
  "foldr (insert_sorted (compareGroups env Popularity)) xs [] = sort_key (\<lambda>g. - popularityOr0 g) xs"
  by (induction xs) (auto simp: insert_sorted_popularity)

lemma Array_sort_popularity:
  "Array_sort env (compareGroups env Popularity) xs = sort_key (\<lambda>g. - popularityOr0 g) xs"
  by (simp add: Array_sort_def consistent_popularity foldr_insert_sorted_popularity)

lemma Array_from_Set_snoc:
  "Array_from_Set (xs @ [x]) =
     (if x \<in> set (Array_from_Set xs) then Array_from_Set xs else Array_from_Set xs @ [x])"
  by (simp add: Array_from_Set_def)

lemma set_Array_from_Set: "set (Array_from_Set xs) = set xs"
  by (induction xs rule: rev_induct) (simp add: Array_from_Set_def, auto simp: Array_from_Set_snoc)

lemma distinct_Array_from_Set: "distinct (Array_from_Set xs)"
  by (induction xs rule: rev_induct) (simp add: Array_from_Set_def, simp add: Array_from_Set_snoc)

lemma firstSeen_snoc:
  "firstSeen (xs @ [x]) = firstSeen xs @ (if x \<in> set xs then [] else [x])"
proof -
  have "filter (\<lambda>i. (xs @ [x]) ! i \<notin> set (take i (xs @ [x]))) [0..<length xs]
      = filter (\<lambda>i. xs ! i \<notin> set (take i xs)) [0..<length xs]"
    by (rule filter_cong) (auto simp: nth_append)
  moreover have "map (nth (xs @ [x])) (filter (\<lambda>i. xs ! i \<notin> set (take i xs)) [0..<length xs])
      = map (nth xs) (filter (\<lambda>i. xs ! i \<notin> set (take i xs)) [0..<length xs])"
    by (rule map_cong) (auto simp: nth_append)
  ultimately show ?thesis
    by (simp add: firstSeen_def)
qed

lemma Array_from_Set_firstSeen: "Array_from_Set xs = firstSeen xs"
proof (induction xs rule: rev_induct)
  case Nil
  show ?case by (simp add: Array_from_Set_def firstSeen_def)
next
  case (snoc x xs)
  have "set (firstSeen xs) = set xs"
    using snoc set_Array_from_Set [of xs] by simp
  with snoc show ?case
    by (simp add: Array_from_Set_snoc firstSeen_snoc)
qed

lemma length_Array_sort: "length (Array_sort env cmp xs) = length xs"
  using mset_Array_sort [of env cmp xs] by (metis size_mset)

lemma set_Array_sort: "set (Array_sort env cmp xs) = set xs"
  using mset_Array_sort [of env cmp xs] by (metis set_mset_mset)

text \<open>
  Claim C5. With the \<open>all\<close> sentinel selected the displayed list holds every group of
  the result set. With any other category \<open>c\<close> selected it holds exactly the groups
  whose \<open>category\<close> is \<open>c\<close> (a group without a category is never among them), so it
  is never longer than the list displayed under \<open>all\<close>. This holds for every sort key
  and every platform.
\<close>

theorem filteredVideoGroups_filter:
  "mset (filteredVideoGroups env (st\<lparr>selectedCategory := ''all''\<rparr>)) = mset (videoGroups st)
   \<and> (c \<noteq> ''all'' \<longrightarrow>
        mset (filteredVideoGroups env (st\<lparr>selectedCategory := c\<rparr>))
          = mset (filter (\<lambda>v. category v = Some c) (videoGroups st)))
   \<and> (c \<noteq> ''all'' \<longrightarrow>
        (\<forall>v \<in> set (filteredVideoGroups env (st\<lparr>selectedCategory := c\<rparr>)). category v = Some c))
   \<and> length (filteredVideoGroups env (st\<lparr>selectedCategory := c\<rparr>))
        \<le> length (filteredVideoGroups env (st\<lparr>selectedCategory := ''all''\<rparr>))"
  by (simp add: filteredVideoGroups_def Let_def mset_Array_sort length_Array_sort set_Array_sort)

theorem filteredVideoGroups_filter_witness:
  "''Music'' \<noteq> ''all'' \<and>
   filteredVideoGroups (examplePlatform None)
     (exampleApp\<lparr>videoGroups := [exampleGroup None (Some ''Music'') (Some 40),
                                 exampleGroup None None None,
                                 exampleGroup None (Some ''Vlog'') (Some 90)],
                 selectedCategory := ''Music''\<rparr>)
     = [exampleGroup None (Some ''Music'') (Some 40)]
   \<and> length (filteredVideoGroups (examplePlatform None)
     (exampleApp\<lparr>videoGroups := [exampleGroup None (Some ''Music'') (Some 40),
                                 exampleGroup None None None,
                                 exampleGroup None (Some ''Vlog'') (Some 90)],
                 selectedCategory := ''all''\<rparr>)) = 3"
  using filteredVideoGroups_filter [of "examplePlatform None"
      "exampleApp\<lparr>videoGroups := [exampleGroup None (Some ''Music'') (Some 40),
                                 exampleGroup None None None,
                                 exampleGroup None (Some ''Vlog'') (Some 90)]\<rparr>" "''Music''"]
  by (simp add: filteredVideoGroups_def Array_sort_popularity popularityOr0_def ex_defs)

lemma filter_neq_removeAll: "filter (\<lambda>h. h \<noteq> u) xs = removeAll u xs"
  by (induction xs) auto

lemma urlHistory_updateHistory:
  "urlHistory (updateHistory env u st) = u # take 9 (removeAll u (urlHistory st))"
  by (simp add: updateHistory_def Let_def filter_neq_removeAll)

text \<open>
  Claim C6. The history update removes every occurrence of the searched URL, puts the
  URL in front and keeps the first ten entries. So the URL is first and occurs once,
  the list never exceeds ten entries, a list without duplicates stays so, searching a
  URL that is already listed only reorders the list, and a new URL pushed onto a full
  list drops the oldest (last) entry.
\<close>

theorem updateHistory_spec:
  "urlHistory (updateHistory env u st) = take 10 (u # removeAll u (urlHistory st))
   \<and> hd (urlHistory (updateHistory env u st)) = u
   \<and> count_list (urlHistory (updateHistory env u st)) u = 1
   \<and> length (urlHistory (updateHistory env u st)) \<le> 10
   \<and> (distinct (urlHistory st) \<longrightarrow> distinct (urlHistory (updateHistory env u st)))
   \<and> (u \<in> set (urlHistory st) \<and> distinct (urlHistory st) \<and> length (urlHistory st) \<le> 10 \<longrightarrow>
        mset (urlHistory (updateHistory env u st)) = mset (urlHistory st))
   \<and> (u \<notin> set (urlHistory st) \<and> length (urlHistory st) = 10 \<longrightarrow>
        urlHistory (updateHistory env u st) = u # butlast (urlHistory st))"
proof -
  let ?h = "urlHistory st"
  let ?r = "urlHistory (updateHistory env u st)"
  note r = urlHistory_updateHistory [of env u st]
  have 1: "?r = take 10 (u # removeAll u ?h)"
    by (simp add: r)
  have 2: "hd ?r = u"
    by (simp add: r)
  have "u \<notin> set (take 9 (removeAll u ?h))"
    by (auto dest: in_set_takeD)
  then have 3: "count_list ?r u = 1"
    by (simp add: r count_list_0_iff)
  have 4: "length ?r \<le> 10"
    by (simp add: r)
  have 5: "distinct ?r" if "distinct ?h"
    using that by (auto simp: r distinct_removeAll dest: in_set_takeD)
  have 6: "mset ?r = mset ?h" if "u \<in> set ?h" "distinct ?h" "length ?h \<le> 10"
  proof -
    have eq: "removeAll u ?h = remove1 u ?h"
      using that(2) by (simp add: distinct_remove1_removeAll)
    have "length (remove1 u ?h) \<le> 9"
      using that(1,3) by (simp add: length_remove1)
    then show ?thesis
      using that(1) by (simp add: r eq)
  qed
  have 7: "?r = u # butlast ?h" if "u \<notin> set ?h" "length ?h = 10"
    using that by (simp add: r butlast_conv_take)
  from 1 2 3 4 5 6 7 show ?thesis
    by blast
qed

theorem updateHistory_spec_witness:
  "''https://a.test'' \<in> set [''https://b.test'', ''https://a.test'']
   \<and> distinct [''https://b.test'', ''https://a.test'']
   \<and> ''https://k.test'' \<notin> set [''j'', ''i'', ''h'', ''g'', ''f'', ''e'', ''d'', ''c'', ''b'', ''a'']
   \<and> length [''j'', ''i'', ''h'', ''g'', ''f'', ''e'', ''d'', ''c'', ''b'', ''a''] = 10
   \<and> urlHistory (updateHistory (examplePlatform None) ''https://a.test''
      (exampleApp\<lparr>urlHistory := [''https://b.test'', ''https://a.test'']\<rparr>))
     = [''https://a.test'', ''https://b.test'']
   \<and> urlHistory (updateHistory (examplePlatform None) ''https://k.test''
      (exampleApp\<lparr>urlHistory := [''j'', ''i'', ''h'', ''g'', ''f'', ''e'', ''d'', ''c'', ''b'', ''a'']\<rparr>))
     = [''https://k.test'', ''j'', ''i'', ''h'', ''g'', ''f'', ''e'', ''d'', ''c'', ''b'']"
  using updateHistory_spec [of "examplePlatform None" "''https://a.test''"
      "exampleApp\<lparr>urlHistory := [''https://b.test'', ''https://a.test'']\<rparr>"]
    updateHistory_spec [of "examplePlatform None" "''https://k.test''"
      "exampleApp\<lparr>urlHistory := [''j'', ''i'', ''h'', ''g'', ''f'', ''e'', ''d'', ''c'', ''b'', ''a'']\<rparr>"]
  by (simp add: ex_defs)

lemma filtered_by_popularity:
  "filteredVideoGroups env (st\<lparr>sortBy := Popularity\<rparr>) =
     sort_key (\<lambda>g. - popularityOr0 g)
       (if selectedCategory st \<noteq> ''all''
        then filter (\<lambda>v. category v = Some (selectedCategory st)) (videoGroups st)
        else videoGroups st)"
  by (simp add: filteredVideoGroups_def Let_def Array_sort_popularity)

lemma sort_three_by_popularity:
  assumes "popularity a = Some 90" "popularity b = Some 40" "popularity c = None"
    and gs: "mset gs = {#a, b, c#}"
  shows "sort_key (\<lambda>g. - popularityOr0 g) gs = [a, b, c]"
proof (rule properties_for_sort_key)
  show "mset [a, b, c] = mset gs"
    using gs by simp
  show "sorted (map (\<lambda>g. - popularityOr0 g) [a, b, c])"
    using assms(1-3) by (simp add: popularityOr0_def)
  fix k
  assume k: "k \<in> set [a, b, c]"
  let ?P = "\<lambda>x. - popularityOr0 k = - popularityOr0 x"
  have pa: "popularityOr0 a = 90" and pb: "popularityOr0 b = 40" and pc: "popularityOr0 c = 0"
    using assms(1-3) by (simp_all add: popularityOr0_def)
  have "mset (filter ?P gs) = mset (filter ?P [a, b, c])"
    by (simp add: gs)
  moreover have "\<exists>x. filter ?P [a, b, c] = [x]"
    using k pa pb pc by auto
  ultimately show "filter ?P [a, b, c] = filter ?P gs"
    by (metis mset_single_iff mset.simps(2) mset.simps(1))
qed

text \<open>
  Claim C7. Sorted by popularity, the displayed list is in descending order of
  popularity, a missing popularity counting as \<open>0\<close>; it holds the same groups as under
  any other sort key, and groups of equal popularity (a missing one being equal to \<open>0\<close>)
  keep the order they have in the result set. In particular groups with popularity
  \<open>90\<close>, \<open>40\<close> and none, given in any order, are displayed in that order.
\<close>

theorem sort_by_popularity:
  "sorted_wrt (\<lambda>a b. (case popularity b of None \<Rightarrow> 0 | Some q \<Rightarrow> q)
                        \<le> (case popularity a of None \<Rightarrow> 0 | Some p \<Rightarrow> p))
      (filteredVideoGroups env (st\<lparr>sortBy := Popularity\<rparr>))
   \<and> mset (filteredVideoGroups env (st\<lparr>sortBy := Popularity\<rparr>)) = mset (filteredVideoGroups env st)
   \<and> filter (\<lambda>g. (case popularity g of None \<Rightarrow> 0 | Some p \<Rightarrow> p) = k)
        (filteredVideoGroups env (st\<lparr>selectedCategory := ''all'', sortBy := Popularity\<rparr>))
       = filter (\<lambda>g. (case popularity g of None \<Rightarrow> 0 | Some p \<Rightarrow> p) = k) (videoGroups st)
   \<and> (popularity a = Some 90 \<and> popularity b = Some 40 \<and> popularity c = None \<and>
        mset gs = {#a, b, c#} \<longrightarrow>
        filteredVideoGroups env
          (st\<lparr>videoGroups := gs, selectedCategory := ''all'', sortBy := Popularity\<rparr>) = [a, b, c])"
proof -
  have key: "(case popularity g of None \<Rightarrow> 0 | Some p \<Rightarrow> p) = popularityOr0 g" for g
    by (simp add: popularityOr0_def)
  have "sorted (map (\<lambda>g. - popularityOr0 g) (filteredVideoGroups env (st\<lparr>sortBy := Popularity\<rparr>)))"
    unfolding filtered_by_popularity by (rule sorted_sort_key)
  then have 1: "sorted_wrt (\<lambda>a b. (case popularity b of None \<Rightarrow> 0 | Some q \<Rightarrow> q)
                        \<le> (case popularity a of None \<Rightarrow> 0 | Some p \<Rightarrow> p))
      (filteredVideoGroups env (st\<lparr>sortBy := Popularity\<rparr>))"
    by (simp add: sorted_map key)
  have 2: "mset (filteredVideoGroups env (st\<lparr>sortBy := Popularity\<rparr>)) = mset (filteredVideoGroups env st)"
    by (simp add: filteredVideoGroups_def Let_def mset_Array_sort)
  have "filter (\<lambda>g. popularityOr0 g = k) (sort_key (\<lambda>g. - popularityOr0 g) (videoGroups st))
        = filter (\<lambda>g. popularityOr0 g = k) (videoGroups st)"
    using sort_key_stable [of "\<lambda>g. - popularityOr0 g" "- k" "videoGroups st"] by simp
  with filtered_by_popularity [of env "st\<lparr>selectedCategory := ''all''\<rparr>"] have 3: "filter (\<lambda>g. (case popularity g of None \<Rightarrow> 0 | Some p \<Rightarrow> p) = k)
        (filteredVideoGroups env (st\<lparr>selectedCategory := ''all'', sortBy := Popularity\<rparr>))
       = filter (\<lambda>g. (case popularity g of None \<Rightarrow> 0 | Some p \<Rightarrow> p) = k) (videoGroups st)"
    by (simp add: key)
  have 4: "filteredVideoGroups env
          (st\<lparr>videoGroups := gs, selectedCategory := ''all'', sortBy := Popularity\<rparr>) = [a, b, c]"
    if "popularity a = Some 90" "popularity b = Some 40" "popularity c = None" "mset gs = {#a, b, c#}"
    using sort_three_by_popularity [OF that] filtered_by_popularity [of env "st\<lparr>videoGroups := gs, selectedCategory := ''all''\<rparr>"]
    by simp
  from 1 2 3 4 show ?thesis
    by blast
qed

theorem sort_by_popularity_witness:
  "popularity (exampleGroup None None (Some 90)) = Some 90
   \<and> popularity (exampleGroup None None (Some 40)) = Some 40
   \<and> popularity (exampleGroup None None None) = None
   \<and> mset [exampleGroup None None None, exampleGroup None None (Some 40),
            exampleGroup None None (Some 90)]
       = {#exampleGroup None None (Some 90), exampleGroup None None (Some 40),
           exampleGroup None None None#}
   \<and> filteredVideoGroups (examplePlatform None)
     (exampleApp\<lparr>videoGroups := [exampleGroup None None None,
                                 exampleGroup None None (Some 40),
                                 exampleGroup None None (Some 90)],
                 selectedCategory := ''all'', sortBy := Popularity\<rparr>)
     = [exampleGroup None None (Some 90), exampleGroup None None (Some 40), exampleGroup None None None]
   \<and> filteredVideoGroups (examplePlatform None)
     (exampleApp\<lparr>videoGroups := [exampleGroup None None (Some (- 5)),
                                 exampleGroup None None None,
                                 exampleGroup None None (Some 0)],
                 selectedCategory := ''all'', sortBy := Popularity\<rparr>)
     = [exampleGroup None None None, exampleGroup None None (Some 0),
        exampleGroup None None (Some (- 5))]"
proof -
  have "filteredVideoGroups (examplePlatform None)
     (exampleApp\<lparr>videoGroups := [exampleGroup None None None,
                                 exampleGroup None None (Some 40),
                                 exampleGroup None None (Some 90)],
                 selectedCategory := ''all'', sortBy := Popularity\<rparr>)
     = [exampleGroup None None (Some 90), exampleGroup None None (Some 40), exampleGroup None None None]"
    using sort_by_popularity [where env = "examplePlatform None" and st = exampleApp
      and a = "exampleGroup None None (Some 90)" and b = "exampleGroup None None (Some 40)"
      and c = "exampleGroup None None None"
      and gs = "[exampleGroup None None None, exampleGroup None None (Some 40),
                 exampleGroup None None (Some 90)]"]
    by (simp add: exampleGroup_def)
  moreover have "filteredVideoGroups (examplePlatform None)
     (exampleApp\<lparr>videoGroups := [exampleGroup None None (Some (- 5)),
                                 exampleGroup None None None,
                                 exampleGroup None None (Some 0)],
                 selectedCategory := ''all'', sortBy := Popularity\<rparr>)
     = [exampleGroup None None None, exampleGroup None None (Some 0),
        exampleGroup None None (Some (- 5))]"
    by (simp add: filteredVideoGroups_def Array_sort_popularity popularityOr0_def exampleGroup_def
          exampleApp_def)
  ultimately show ?thesis
    by (simp add: exampleGroup_def)
qed

lemma set_categories:
  "set (map the (filter (\<lambda>c. c \<noteq> None \<and> c \<noteq> Some []) (map category gs)))
     = {c. c \<noteq> [] \<and> (\<exists>g \<in> set gs. category g = Some c)}"
  by (induction gs) auto

text \<open>
  Claim C9. The category list is the \<open>all\<close> sentinel followed by the non-empty
  categories of the unfiltered result set, each once, in the order of their first
  occurrence; it does not depend on the selected category or the sort key.
\<close>

theorem allCategories_spec:
  "allCategories st =
     ''all'' # firstSeen (map the (filter (\<lambda>c. c \<noteq> None \<and> c \<noteq> Some []) (map category (videoGroups st))))
   \<and> distinct (tl (allCategories st))
   \<and> set (tl (allCategories st)) = {c. c \<noteq> [] \<and> (\<exists>g \<in> set (videoGroups st). category g = Some c)}
   \<and> allCategories (st\<lparr>selectedCategory := sel, sortBy := criteria\<rparr>) = allCategories st"
proof -
  let ?cs = "map the (filter (\<lambda>c. c \<noteq> None \<and> c \<noteq> Some []) (map category (videoGroups st)))"
  have tl: "tl (allCategories st) = Array_from_Set ?cs"
    by (simp add: allCategories_def)
  have 1: "allCategories st = ''all'' # firstSeen ?cs"
    by (simp add: allCategories_def Array_from_Set_firstSeen)
  have 2: "distinct (tl (allCategories st))"
    unfolding tl by (rule distinct_Array_from_Set)
  have 3: "set (tl (allCategories st)) = {c. c \<noteq> [] \<and> (\<exists>g \<in> set (videoGroups st). category g = Some c)}"
    unfolding tl set_Array_from_Set by (rule set_categories)
  have 4: "allCategories (st\<lparr>selectedCategory := sel, sortBy := criteria\<rparr>) = allCategories st"
    by (simp add: allCategories_def)
  from 1 2 3 4 show ?thesis
    by blast
qed

theorem allCategories_spec_witness:
  "allCategories
     (exampleApp\<lparr>videoGroups := [exampleGroup None (Some ''Music'') None,
                                 exampleGroup None None None,
                                 exampleGroup None (Some ''Vlog'') None,
                                 exampleGroup None (Some []) None,
                                 exampleGroup None (Some ''Music'') None],
                 selectedCategory := ''Vlog'', sortBy := Title\<rparr>)
     = [''all'', ''Music'', ''Vlog'']
   \<and> firstSeen [''Music'', ''Vlog'', ''Music''] = [''Music'', ''Vlog'']"
proof -
  let ?st = "exampleApp\<lparr>videoGroups := [exampleGroup None (Some ''Music'') None,
                                 exampleGroup None None None,
                                 exampleGroup None (Some ''Vlog'') None,
                                 exampleGroup None (Some []) None,
                                 exampleGroup None (Some ''Music'') None]\<rparr>"
  have seen: "firstSeen [''Music'', ''Vlog'', ''Music''] = [''Music'', ''Vlog'']"
    by code_simp
  have "allCategories (?st\<lparr>selectedCategory := ''Vlog'', sortBy := Title\<rparr>)
          = ''all'' # firstSeen [''Music'', ''Vlog'', ''Music'']"
    using allCategories_spec [where sel = "''Vlog''" and criteria = Title and st = ?st]
    by (simp add: ex_defs)
  with seen show ?thesis
    by (simp add: exampleApp_def)
qed

section \<open>Properties of the query cache\<close>

lemma findVideosInUrl_hit:
  "cache s u = Some gs \<Longrightarrow> findVideosInUrl env u s = (Inr gs, s)"
  by (simp add: findVideosInUrl_def)

lemma findVideosInUrl_cases:
  assumes "findVideosInUrl env u s = (r, s')"
  obtains
    (hit) gs where "cache s u = Some gs" "r = Inr gs" "s' = s"
  | (failed) "cache s u = None" "r = Inl analysisError" "s' = s\<lparr>apiCalls := apiCalls s + 1\<rparr>"
      "generateContent env u = None \<or>
       (\<exists>t. generateContent env u = Some t \<and>
          (JSON_parse env t = None \<or>
           (\<exists>raw. JSON_parse env t = Some raw \<and> processGroups env u raw = None)))"
  | (stored) t raw gs where "cache s u = None" "generateContent env u = Some t"
      "JSON_parse env t = Some raw" "processGroups env u raw = Some gs" "r = Inr gs"
      "s' = s\<lparr>apiCalls := apiCalls s + 1, cache := (cache s)(u \<mapsto> gs)\<rparr>"
  using assms by (auto simp: findVideosInUrl_def Let_def split: option.splits)

lemma cache_sound_empty: "cache_sound env emptyService"
  by (simp add: cache_sound_def emptyService_def)

lemma cache_sound_findVideosInUrl:
  assumes "cache_sound env s" "findVideosInUrl env u s = (r, s')"
  shows "cache_sound env s'"
  using assms(2)
proof (cases rule: findVideosInUrl_cases)
  case (hit gs)
  with assms(1) show ?thesis by simp
next
  case failed
  with assms(1) show ?thesis by (simp add: cache_sound_def)
next
  case (stored t raw gs)
  with assms(1) show ?thesis by (auto simp: cache_sound_def)
qed

text \<open>
  Claim C2, as amended. Two calls for the same URL with the same collaborator return
  the same result. When the first call succeeds, the second is answered from the
  cache: it changes nothing (no call of the model, nothing recomputed), and the model
  has been called at most once over both calls.
\<close>

theorem findVideosInUrl_twice:
  assumes "findVideosInUrl env u s = (r1, s1)" and "findVideosInUrl env u s1 = (r2, s2)"
  shows "r2 = r1 \<and>
         (\<forall>gs. r1 = Inr gs \<longrightarrow> s2 = s1 \<and> cache s1 u = Some gs \<and> apiCalls s2 \<le> apiCalls s + 1)"
  using assms(1)
proof (cases rule: findVideosInUrl_cases)
  case (hit gs)
  with assms(2) show ?thesis by (auto simp: findVideosInUrl_hit)
next
  case failed
  with assms(2) show ?thesis
    by (auto simp: findVideosInUrl_def Let_def split: option.splits)
next
  case (stored t raw gs)
  with assms(2) show ?thesis by (auto simp: findVideosInUrl_hit)
qed

theorem findVideosInUrl_twice_witness:
  "fst (findVideosInUrl (examplePlatform (Some [exampleGroup (Some ''/thumb.jpg'') None None]))
          ''https://site.test/page'' emptyService)
     = Inr [(exampleGroup (Some ''https://site.test/thumb.jpg'') None None)
              \<lparr>variants := [exampleVariant ''https://site.test/v/clip.mp4'']\<rparr>]
   \<and> findVideosInUrl (examplePlatform (Some [exampleGroup (Some ''/thumb.jpg'') None None]))
          ''https://site.test/page''
          (snd (findVideosInUrl (examplePlatform (Some [exampleGroup (Some ''/thumb.jpg'') None None]))
                  ''https://site.test/page'' emptyService))
     = findVideosInUrl (examplePlatform (Some [exampleGroup (Some ''/thumb.jpg'') None None]))
          ''https://site.test/page'' emptyService
   \<and> apiCalls (snd (findVideosInUrl (examplePlatform (Some [exampleGroup (Some ''/thumb.jpg'') None None]))
          ''https://site.test/page''
          (snd (findVideosInUrl (examplePlatform (Some [exampleGroup (Some ''/thumb.jpg'') None None]))
                  ''https://site.test/page'' emptyService)))) = 1"
proof -
  let ?P = "examplePlatform (Some [exampleGroup (Some ''/thumb.jpg'') None None])"
  let ?u = "''https://site.test/page''"
  let ?res = "[(exampleGroup (Some ''https://site.test/thumb.jpg'') None None)
              \<lparr>variants := [exampleVariant ''https://site.test/v/clip.mp4'']\<rparr>]"
  let ?s1 = "emptyService\<lparr>apiCalls := 1, cache := (cache emptyService)(?u \<mapsto> ?res)\<rparr>"
  have first: "findVideosInUrl ?P ?u emptyService = (Inr ?res, ?s1)"
    by (simp add: findVideosInUrl_def processGroup_def resolveVariant_def ex_defs)
  obtain r2 s2 where second: "findVideosInUrl ?P ?u ?s1 = (r2, s2)"
    by (cases "findVideosInUrl ?P ?u ?s1")
  from findVideosInUrl_twice [OF first second]
  have "r2 = Inr ?res" "s2 = ?s1"
    by simp_all
  with first second show ?thesis
    by (simp add: emptyService_def)
qed

text \<open>
  Claim C2 as first stated also bounds the calls of the model by one when the first
  call fails. It does not hold there: with a model whose call is rejected, both calls
  fail alike and the model is called twice.
\<close>

theorem failed_search_is_repeated:
  "fst (findVideosInUrl (examplePlatform None) ''https://x.test'' emptyService) = Inl analysisError
   \<and> fst (findVideosInUrl (examplePlatform None) ''https://x.test''
            (snd (findVideosInUrl (examplePlatform None) ''https://x.test'' emptyService)))
       = Inl analysisError
   \<and> apiCalls (snd (findVideosInUrl (examplePlatform None) ''https://x.test''
            (snd (findVideosInUrl (examplePlatform None) ''https://x.test'' emptyService)))) = 2
   \<and> \<not> apiCalls (snd (findVideosInUrl (examplePlatform None) ''https://x.test''
            (snd (findVideosInUrl (examplePlatform None) ''https://x.test'' emptyService)))) \<le> 1"
  by (simp add: findVideosInUrl_def ex_defs)

text \<open>
  Claim C10. When \<open>findVideosInUrl\<close> fails, whatever the cause, it fails with the fixed
  error and leaves the cache as it was, with no entry for the URL; the next call for
  the same URL calls the model again.
\<close>

theorem failure_not_cached:
  assumes "findVideosInUrl env u s = (Inl e, s1)"
  shows "e = analysisError \<and> cache s1 = cache s \<and> cache s1 u = None \<and> apiCalls s1 = apiCalls s + 1
         \<and> findVideosInUrl env u s1 = (Inl e, s1\<lparr>apiCalls := apiCalls s + 2\<rparr>)"
  using assms
proof (cases rule: findVideosInUrl_cases)
  case failed
  then show ?thesis
    by (auto simp: findVideosInUrl_def Let_def split: option.splits)
qed simp_all

theorem failure_not_cached_witness:
  "findVideosInUrl (examplePlatform None) ''https://x.test'' emptyService
     = (Inl analysisError, emptyService\<lparr>apiCalls := 1\<rparr>)
   \<and> findVideosInUrl (examplePlatform None) ''https://x.test'' (emptyService\<lparr>apiCalls := 1\<rparr>)
     = (Inl analysisError, emptyService\<lparr>apiCalls := 2\<rparr>)
   \<and> findVideosInUrl garbledPlatform ''https://x.test'' emptyService
     = (Inl analysisError, emptyService\<lparr>apiCalls := 1\<rparr>)
   \<and> findVideosInUrl garbledPlatform ''https://x.test'' (emptyService\<lparr>apiCalls := 1\<rparr>)
     = (Inl analysisError, emptyService\<lparr>apiCalls := 2\<rparr>)
   \<and> findVideosInUrl (examplePlatform (Some [exampleGroup (Some ''http://['') None None]))
        ''https://site.test/page'' emptyService
     = (Inl analysisError, emptyService\<lparr>apiCalls := 1\<rparr>)
   \<and> findVideosInUrl (examplePlatform (Some [exampleGroup (Some ''http://['') None None]))
        ''https://site.test/page'' (emptyService\<lparr>apiCalls := 1\<rparr>)
     = (Inl analysisError, emptyService\<lparr>apiCalls := 2\<rparr>)"
proof -
  have 1: "findVideosInUrl (examplePlatform None) ''https://x.test'' emptyService
     = (Inl analysisError, emptyService\<lparr>apiCalls := 1\<rparr>)"
    by (simp add: findVideosInUrl_def ex_defs)
  have 2: "findVideosInUrl garbledPlatform ''https://x.test'' emptyService
     = (Inl analysisError, emptyService\<lparr>apiCalls := 1\<rparr>)"
    by (simp add: findVideosInUrl_def ex_defs)
  have 3: "findVideosInUrl (examplePlatform (Some [exampleGroup (Some ''http://['') None None]))
        ''https://site.test/page'' emptyService
     = (Inl analysisError, emptyService\<lparr>apiCalls := 1\<rparr>)"
    by (simp add: findVideosInUrl_def processGroup_def resolveVariant_def ex_defs)
  from failure_not_cached [OF 1] failure_not_cached [OF 2] failure_not_cached [OF 3] 1 2 3
  show ?thesis
    by (simp add: emptyService_def)
qed

lemma processGroups_nth:
  "processGroups env u raw = Some res \<Longrightarrow>
     length res = length raw \<and> (\<forall>i<length raw. processGroup env u (raw ! i) = Some (res ! i))"
proof (induction raw arbitrary: res)
  case Nil
  then show ?case by simp
next
  case (Cons g gs)
  then obtain g' gs' where g': "processGroup env u g = Some g'"
    and gs': "processGroups env u gs = Some gs'" and res: "res = g' # gs'"
    by (auto split: option.splits)
  from Cons.IH [OF gs'] g' show ?case
    by (auto simp: res nth_Cons split: nat.splits)
qed

lemma processGroup_thumbnail:
  assumes "processGroup env u g = Some g'" "thumbnailUrl g = Some th" "th \<noteq> []"
  shows "\<exists>a. newURL env th (Some u) = Some a \<and> thumbnailUrl g' = Some (href a)"
  using assms by (auto simp: processGroup_def Let_def split: option.splits)

text \<open>
  Claim C8. A successful call returns one group for each group of the model's answer,
  in order, and the \<open>thumbnailUrl\<close> of a returned group is the \<open>href\<close> of the answer's
  non-empty \<open>thumbnailUrl\<close> resolved against the submitted URL as the base. This
  holds for a fresh analysis and for a result served from the cache, in every state
  of the service whose cache earlier calls have filled (\<open>cache_sound\<close>, which the call
  maintains).
\<close>

theorem thumbnail_resolved:
  assumes "cache_sound env s" and "findVideosInUrl env u s = (Inr res, s')"
  shows "cache_sound env s' \<and>
         (\<exists>t raw. generateContent env u = Some t \<and> JSON_parse env t = Some raw \<and>
           length res = length raw \<and>
           (\<forall>i<length raw. \<forall>th. thumbnailUrl (raw ! i) = Some th \<and> th \<noteq> [] \<longrightarrow>
              (\<exists>a. newURL env th (Some u) = Some a \<and> thumbnailUrl (res ! i) = Some (href a))))"
proof -
  have "\<exists>t raw. generateContent env u = Some t \<and> JSON_parse env t = Some raw \<and>
           processGroups env u raw = Some res"
    using assms(2)
  proof (cases rule: findVideosInUrl_cases)
    case (hit gs)
    with assms(1) show ?thesis by (simp add: cache_sound_def)
  next
    case (stored t raw gs)
    then show ?thesis by auto
  qed simp
  then obtain t raw where t: "generateContent env u = Some t" and raw: "JSON_parse env t = Some raw"
    and res: "processGroups env u raw = Some res"
    by blast
  from processGroups_nth [OF res] processGroup_thumbnail [of env u]
  have "length res = length raw \<and>
           (\<forall>i<length raw. \<forall>th. thumbnailUrl (raw ! i) = Some th \<and> th \<noteq> [] \<longrightarrow>
              (\<exists>a. newURL env th (Some u) = Some a \<and> thumbnailUrl (res ! i) = Some (href a)))"
    by blast
  with t raw cache_sound_findVideosInUrl [OF assms] show ?thesis
    by blast
qed

theorem thumbnail_resolved_witness:
  "cache_sound (examplePlatform (Some [exampleGroup (Some ''/thumb.jpg'') None None])) emptyService
   \<and> (\<exists>res s'. findVideosInUrl (examplePlatform (Some [exampleGroup (Some ''/thumb.jpg'') None None]))
          ''https://site.test/page'' emptyService = (Inr res, s')
        \<and> length res = 1
        \<and> thumbnailUrl (res ! 0) = Some ''https://site.test/thumb.jpg'')"
proof -
  let ?P = "examplePlatform (Some [exampleGroup (Some ''/thumb.jpg'') None None])"
  let ?u = "''https://site.test/page''"
  have sound: "cache_sound ?P emptyService"
    by (rule cache_sound_empty)
  obtain res s' where call: "findVideosInUrl ?P ?u emptyService = (Inr res, s')"
    by (simp add: findVideosInUrl_def processGroup_def resolveVariant_def ex_defs)
  from thumbnail_resolved [OF sound call]
  have "length res = 1 \<and> thumbnailUrl (res ! 0) = Some ''https://site.test/thumb.jpg''"
    by (auto simp: ex_defs)
  with sound call show ?thesis
    by blast
qed

text \<open>
  Claim C1, at the input where the code departs from it. The model's answer holds two
  groups; the thumbnail of the second does not resolve against the page. The call
  returns no group at all: it fails with the analysis error. A variant whose URL does
  not resolve, by contrast, is kept as it is.
\<close>

theorem unresolvable_thumbnail_fails_call:
  "findVideosInUrl
     (examplePlatform (Some [exampleGroup (Some ''/thumb.jpg'') None None,
                             exampleGroup (Some ''http://['') None None]))
     ''https://site.test/page'' emptyService
   = (Inl analysisError, emptyService\<lparr>apiCalls := 1\<rparr>)
   \<and> resolveVariant (examplePlatform None) ''https://site.test/page'' (exampleVariant ''http://['')
       = exampleVariant ''http://[''"
  by (simp add: findVideosInUrl_def examplePlatform_def exampleGroup_def exampleVariant_def
        emptyService_def processGroup_def resolveVariant_def exampleURL_def)

section \<open>Properties of the search lifecycle\<close>

lemma handle_hasSearched: "hasSearched st \<Longrightarrow> hasSearched (handle env e st)"
  by (cases e)
     (auto simp: Let_def clearHistory_def findVideos_submit_def findVideos_begin_def
        findVideos_settle_def updateHistory_def split: option.splits sum.splits)

lemma inFlight_hasSearched:
  "hasSearched st \<Longrightarrow> p \<in> set (inFlight env evs st) \<Longrightarrow> hasSearched p"
proof (induction evs arbitrary: st)
  case Nil
  then show ?case by simp
next
  case (Cons e es)
  from Cons.prems(2) have "p = st \<or> p \<in> set (inFlight env es (handle env e st))"
    by simp
  then show ?case
    using Cons.IH [of "handle env e st"] handle_hasSearched [OF Cons.prems(1), of env e]
      Cons.prems(1) by auto
qed

lemma handle_keeps:
  "\<not> settles e \<Longrightarrow> isLoading st \<and> videoGroups st = [] \<Longrightarrow>
     isLoading (handle env e st) \<and> videoGroups (handle env e st) = []"
  by (cases e)
     (auto simp: Let_def clearHistory_def findVideos_submit_def findVideos_begin_def
        split: option.splits)

lemma inFlight_keeps:
  "\<forall>e \<in> set evs. \<not> settles e \<Longrightarrow> isLoading st \<and> videoGroups st = [] \<Longrightarrow>
     p \<in> set (inFlight env evs st) \<Longrightarrow> isLoading p \<and> videoGroups p = []"
proof (induction evs arbitrary: st)
  case Nil
  then show ?case by simp
next
  case (Cons e es)
  from Cons.prems(3) have "p = st \<or> p \<in> set (inFlight env es (handle env e st))"
    by simp
  moreover have "isLoading (handle env e st) \<and> videoGroups (handle env e st) = []"
    using Cons.prems(1,2) by (simp add: handle_keeps)
  ultimately show ?case
    using Cons.IH [of "handle env e st"] Cons.prems(1,2) by auto
qed

lemma inFlight_not_Nil: "inFlight env evs st \<noteq> []"
  by (cases evs) simp_all

lemma hd_inFlight: "hd (inFlight env evs st) = st"
  by (cases evs) simp_all

text \<open>
  Claim C3, as amended. For a search that passes validation, whatever the injected
  service does and whatever reaches the component meanwhile: \<open>isLoading\<close> is true when
  the call starts and false once it has settled, on success and on failure alike, and
  when the call fails the final state has \<open>hasSearched\<close> set and \<open>error\<close> set to the
  error's message (to the fallback text when the message is empty), which is never
  empty. If no other search settles while the call is pending, \<open>isLoading\<close> is true
  in every state the component passes through meanwhile, and a failed call leaves no
  video groups.
\<close>

theorem findVideos_loading_and_failure:
  assumes "isValidUrl env (url_input st)"
    and "findVideos env call evs (st, svc) = (pending, st', svc')"
  shows "pending \<noteq> [] \<and> isLoading (hd pending) \<and> \<not> isLoading st'
         \<and> (\<forall>e. fst (call (url_input st) svc) = Inl e \<longrightarrow>
               hasSearched st' \<and>
               error st' = Some (if message e = [] then ''An unknown error occurred.'' else message e)
               \<and> error st' \<noteq> None \<and> error st' \<noteq> Some [])
         \<and> ((\<forall>ev \<in> set evs. \<not> settles ev) \<longrightarrow>
               (\<forall>p \<in> set pending. isLoading p) \<and>
               (\<forall>e. fst (call (url_input st) svc) = Inl e \<longrightarrow> videoGroups st' = []))"
proof -
  let ?b = "findVideos_begin st"
  let ?l = "last (inFlight env evs ?b)"
  have pending: "pending = inFlight env evs ?b"
    and st': "st' = findVideos_settle env (url_input st) (fst (call (url_input st) svc)) ?l"
    using assms by (auto simp: findVideos_def Let_def)
  have b: "isLoading ?b" "videoGroups ?b = []" "hasSearched ?b"
    by (simp_all add: findVideos_begin_def)
  have l: "?l \<in> set (inFlight env evs ?b)"
    by (simp add: inFlight_not_Nil)
  have 1: "pending \<noteq> []"
    by (simp add: pending inFlight_not_Nil)
  have 2: "isLoading (hd pending)"
    by (simp add: pending hd_inFlight b)
  have 3: "\<not> isLoading st'"
    by (cases "fst (call (url_input st) svc)")
       (simp_all add: st' findVideos_settle_def updateHistory_def Let_def)
  have 4: "hasSearched st' \<and>
      error st' = Some (if message e = [] then ''An unknown error occurred.'' else message e)
      \<and> error st' \<noteq> None \<and> error st' \<noteq> Some []"
    if "fst (call (url_input st) svc) = Inl e" for e
    using that inFlight_hasSearched [OF b(3) l]
    by (simp add: st' findVideos_settle_def)
  have 5: "\<forall>p \<in> set pending. isLoading p" if "\<forall>ev \<in> set evs. \<not> settles ev"
    using inFlight_keeps [OF that, of ?b _ env] b by (simp add: pending)
  have 6: "videoGroups st' = []"
    if "\<forall>ev \<in> set evs. \<not> settles ev" "fst (call (url_input st) svc) = Inl e" for e
    using inFlight_keeps [OF that(1), of ?b ?l env] b l that(2)
    by (simp add: st' findVideos_settle_def)
  from 1 2 3 4 5 6 show ?thesis
    by blast
qed

theorem findVideos_loading_and_failure_witness:
  "isValidUrl (examplePlatform None) ''https://x.test''
   \<and> fst (findVideosInUrl (examplePlatform None) ''https://x.test'' emptyService) = Inl analysisError
   \<and> list_all (\<lambda>ev. \<not> settles ev) [OnUrlChange ''https://y.test'', SetSortBy Title, FindVideos]
   \<and> (\<exists>pending st' svc'.
         findVideos (examplePlatform None) (findVideosInUrl (examplePlatform None))
           [OnUrlChange ''https://y.test'', SetSortBy Title, FindVideos]
           (exampleApp\<lparr>url_input := ''https://x.test'', videoGroups := [exampleGroup None None None]\<rparr>,
            emptyService)
           = (pending, st', svc')
         \<and> map isLoading pending = [True, True, True, True]
         \<and> \<not> isLoading st' \<and> videoGroups st' = [] \<and> hasSearched st'
         \<and> error st' = Some ''Failed to analyze the URL. The AI model could not process the request.'')"
proof -
  let ?P = "examplePlatform None"
  let ?st = "exampleApp\<lparr>url_input := ''https://x.test'', videoGroups := [exampleGroup None None None]\<rparr>"
  let ?evs = "[OnUrlChange ''https://y.test'', SetSortBy Title, FindVideos]"
  have valid: "isValidUrl ?P (url_input ?st)"
    by (simp add: isValidUrl_def ex_defs)
  have fails: "fst (findVideosInUrl ?P (url_input ?st) emptyService) = Inl analysisError"
    by (simp add: findVideosInUrl_def ex_defs)
  have quiet: "\<forall>ev \<in> set ?evs. \<not> settles ev"
    by simp
  obtain pending st' svc' where run:
    "findVideos ?P (findVideosInUrl ?P) ?evs (?st, emptyService) = (pending, st', svc')"
    by (metis prod_cases3)
  have "length pending = 4"
    using run valid by (auto simp: findVideos_def Let_def)
  moreover from findVideos_loading_and_failure [OF valid run] fails quiet
  have *: "(\<forall>p \<in> set pending. isLoading p) \<and> \<not> isLoading st' \<and> videoGroups st' = []
         \<and> hasSearched st'
         \<and> error st' = Some ''Failed to analyze the URL. The AI model could not process the request.''"
    by (simp add: analysisError_def)
  ultimately have "map isLoading pending = [True, True, True, True]"
    by (auto simp: length_Suc_conv numeral_eq_Suc)
  with valid fails run * show ?thesis
    by (simp add: exampleApp_def)
qed

text \<open>
  Claim C3 as first stated does not hold when another search settles in between. The
  search for \<open>https://x.test\<close> is pending; the user enters another URL and submits it;
  that search succeeds first with one group; then the first call is rejected. While
  the first call is still pending \<open>isLoading\<close> is already false, and after the failed
  search the group of the other search is still displayed.
\<close>

theorem overlapping_search_breaks_loading:
  "isValidUrl (flakyPlatform [exampleGroup None None None]) ''https://x.test''
   \<and> fst (findVideosInUrl (flakyPlatform [exampleGroup None None None]) ''https://x.test''
            emptyService) = Inl analysisError
   \<and> fst (findVideosInUrl (flakyPlatform [exampleGroup None None None]) ''https://site.test/page''
            (snd (findVideosInUrl (flakyPlatform [exampleGroup None None None]) ''https://x.test''
                    emptyService)))
       = Inr [exampleGroup None None None
                \<lparr>variants := [exampleVariant ''https://site.test/v/clip.mp4'']\<rparr>]
   \<and> map isLoading
        (fst (findVideos (flakyPlatform [exampleGroup None None None])
                (findVideosInUrl (flakyPlatform [exampleGroup None None None]))
                [OnUrlChange ''https://site.test/page'', FindVideos,
                 Settled ''https://site.test/page''
                   (Inr [exampleGroup None None None
                           \<lparr>variants := [exampleVariant ''https://site.test/v/clip.mp4'']\<rparr>])]
                (exampleApp\<lparr>url_input := ''https://x.test''\<rparr>, emptyService)))
       = [True, True, True, False]
   \<and> videoGroups
        (fst (snd (findVideos (flakyPlatform [exampleGroup None None None])
                (findVideosInUrl (flakyPlatform [exampleGroup None None None]))
                [OnUrlChange ''https://site.test/page'', FindVideos,
                 Settled ''https://site.test/page''
                   (Inr [exampleGroup None None None
                           \<lparr>variants := [exampleVariant ''https://site.test/v/clip.mp4'']\<rparr>])]
                (exampleApp\<lparr>url_input := ''https://x.test''\<rparr>, emptyService))))
       = [exampleGroup None None None
            \<lparr>variants := [exampleVariant ''https://site.test/v/clip.mp4'']\<rparr>]"
  by (simp add: findVideos_def findVideos_begin_def findVideos_settle_def findVideos_submit_def
        updateHistory_def isValidUrl_def findVideosInUrl_def processGroup_def resolveVariant_def
        flakyPlatform_def Let_def ex_defs)

text \<open>
  Claim C4. An input is accepted exactly when the URL constructor parses it and the
  protocol of the parsed URL is \<open>http:\<close> or \<open>https:\<close>; so an input the constructor
  rejects and an \<open>ftp:\<close> URL are refused. A refused submission sets \<open>error\<close> to the
  fixed message and changes nothing else: every other field of the component, and the
  service, are as before, and there is no in-flight state. An accepted submission goes
  on to call the service.
\<close>

theorem findVideos_validation:
  "(isValidUrl env inp \<longleftrightarrow>
      (\<exists>p. newURL env inp None = Some p \<and> (protocol p = ''http:'' \<or> protocol p = ''https:'')))
   \<and> (newURL env inp None = None \<longrightarrow> \<not> isValidUrl env inp)
   \<and> (\<forall>p. newURL env inp None = Some p \<and> protocol p = ''ftp:'' \<longrightarrow> \<not> isValidUrl env inp)
   \<and> (\<not> isValidUrl env (url_input st) \<longrightarrow>
        findVideos env call evs (st, svc) = ([], st\<lparr>error := Some validationMessage\<rparr>, svc))
   \<and> (isValidUrl env (url_input st) \<longrightarrow>
        fst (findVideos env call evs (st, svc)) \<noteq> [] \<and>
        snd (snd (findVideos env call evs (st, svc))) = snd (call (url_input st) svc))"
  by (auto simp: isValidUrl_def findVideos_def Let_def inFlight_not_Nil split: option.splits)

theorem findVideos_validation_witness:
  "\<not> isValidUrl (examplePlatform None) ''''
   \<and> \<not> isValidUrl (examplePlatform None) ''not a url''
   \<and> \<not> isValidUrl (examplePlatform None) ''ftp://x.test''
   \<and> isValidUrl (examplePlatform None) ''https://x.test''
   \<and> isValidUrl (examplePlatform None) ''http://x.test''
   \<and> findVideos (examplePlatform None) (findVideosInUrl (examplePlatform None)) []
        (exampleApp\<lparr>url_input := ''ftp://x.test''\<rparr>, emptyService)
       = ([], exampleApp\<lparr>url_input := ''ftp://x.test'',
                         error := Some ''Please enter a valid URL (e.g., https://example.com)''\<rparr>,
          emptyService)
   \<and> findVideos (examplePlatform None) (findVideosInUrl (examplePlatform None)) []
        (exampleApp\<lparr>url_input := ''not a url''\<rparr>, emptyService)
       = ([], exampleApp\<lparr>url_input := ''not a url'',
                         error := Some ''Please enter a valid URL (e.g., https://example.com)''\<rparr>,
          emptyService)
   \<and> findVideos (examplePlatform None) (findVideosInUrl (examplePlatform None)) []
        (exampleApp, emptyService)
       = ([], exampleApp\<lparr>error := Some ''Please enter a valid URL (e.g., https://example.com)''\<rparr>,
          emptyService)"
proof -
  let ?P = "examplePlatform None"
  have url: "newURL ?P [] None = None" "newURL ?P ''not a url'' None = None"
    "newURL ?P ''ftp://x.test'' None = Some \<lparr>href = ''ftp://x.test/'', protocol = ''ftp:''\<rparr>"
    "newURL ?P ''https://x.test'' None = Some \<lparr>href = ''https://x.test/'', protocol = ''https:''\<rparr>"
    "newURL ?P ''http://x.test'' None = Some \<lparr>href = ''http://x.test/'', protocol = ''http:''\<rparr>"
    by (simp_all add: ex_defs)
  note v = findVideos_validation [where env = ?P and call = "findVideosInUrl ?P" and evs = "[]"
      and svc = emptyService]
  have 1: "\<not> isValidUrl ?P ''''"
    using v [where inp = "''''" and st = exampleApp] url by simp
  have 2: "\<not> isValidUrl ?P ''not a url''"
    using v [where inp = "''not a url''" and st = exampleApp] url by simp
  have 3: "\<not> isValidUrl ?P ''ftp://x.test''"
    using v [where inp = "''ftp://x.test''" and st = exampleApp] url by simp
  have 4: "isValidUrl ?P ''https://x.test''"
    using v [where inp = "''https://x.test''" and st = exampleApp] url by simp
  have 5: "isValidUrl ?P ''http://x.test''"
    using v [where inp = "''http://x.test''" and st = exampleApp] url by simp
  have 6: "findVideos ?P (findVideosInUrl ?P) [] (exampleApp\<lparr>url_input := ''ftp://x.test''\<rparr>, emptyService)
       = ([], exampleApp\<lparr>url_input := ''ftp://x.test'', error := Some validationMessage\<rparr>, emptyService)"
    using v [where inp = "''ftp://x.test''" and st = "exampleApp\<lparr>url_input := ''ftp://x.test''\<rparr>"] 3
    by simp
  have 7: "findVideos ?P (findVideosInUrl ?P) [] (exampleApp\<lparr>url_input := ''not a url''\<rparr>, emptyService)
       = ([], exampleApp\<lparr>url_input := ''not a url'', error := Some validationMessage\<rparr>, emptyService)"
    using v [where inp = "''not a url''" and st = "exampleApp\<lparr>url_input := ''not a url''\<rparr>"] 2
    by simp
  have 8: "findVideos ?P (findVideosInUrl ?P) [] (exampleApp, emptyService)
       = ([], exampleApp\<lparr>error := Some validationMessage\<rparr>, emptyService)"
    using v [where inp = "''''" and st = exampleApp] 1
    by (simp add: exampleApp_def)
  from 1 2 3 4 5 6 7 8 show ?thesis
    by (simp add: validationMessage_def)
qed

end
